theory Spec2Isabelle
  imports
    Complex_Main
    "HOL-Library.Char_ord"
    "HOL-Library.List_Lexorder"
    "HOL-Library.Product_Lexorder"
begin

section \<open>The Monte Carlo engine (src/Monte\_Carlo/monte-carlo-method.py)\<close>

text \<open>
  Floating-point numbers are modelled as real numbers; a cell that can be missing
  (pandas' NaN) is a \<open>real option\<close>, \<open>None\<close> being NaN. Infinities are not
  represented: a division by zero or the logarithm of a non-positive number gives
  \<open>None\<close>. Price tables of positive prices, which is what the download delivers,
  never reach those cases.
\<close>

type_synonym float = "real option"

text \<open>
  The exceptions of the engine. \<open>ZeroDivisionError\<close> and \<open>IndexError\<close> are
  Python's own; an exception of the numpy sampler is wrapped in \<open>NumpyError\<close>.
  \<open>InvalidParameterError\<close> and \<open>MissingTickerDataError\<close> are the two classes of the
  specification's error taxonomy the claims speak of; no statement of the source raises them.
\<close>

datatype np_error = ValueError | LinAlgError

datatype error =
    ZeroDivisionError
  | IndexError
  | NumpyError np_error
  | InvalidParameterError
  | MissingTickerDataError string

text \<open>
  \<open>yf.download(tickers, start, end)["Adj Close"]\<close> is the input boundary: its result,
  a frame with one column per ticker and one row per trading day, is an argument of the
  model. The date index takes no part in any computation and is left out.
\<close>

datatype price_frame = PriceFrame (columns: "string list") (cells: "float list list")

text \<open>\<open>DataFrame.dropna()\<close>: drop every row with a missing cell.\<close>

definition dropna :: "price_frame \<Rightarrow> price_frame" where
  "dropna df =
     PriceFrame (columns df) (filter (\<lambda>r. list_all (\<lambda>c. c \<noteq> None) r) (cells df))"

text \<open>\<open>DataFrame.shift(1)\<close>: every row moves down by one, the first row becomes NaN.\<close>

definition shift1 :: "price_frame \<Rightarrow> price_frame" where
  "shift1 df =
     PriceFrame (columns df)
       (case cells df of [] \<Rightarrow> []
        | r # rs \<Rightarrow> replicate (length (columns df)) None # butlast (r # rs))"

definition fdiv :: "float \<Rightarrow> float \<Rightarrow> float" where
  "fdiv a b =
     (case (a, b) of
        (Some x, Some y) \<Rightarrow> if y = 0 then None else Some (x / y)
      | _ \<Rightarrow> None)"

definition np_log :: "float \<Rightarrow> float" where
  "np_log a = (case a of Some x \<Rightarrow> if 0 < x then Some (ln x) else None | None \<Rightarrow> None)"

text \<open>\<open>np.log(price_data / price_data.shift(1)).dropna()\<close>\<close>

definition log_returns :: "price_frame \<Rightarrow> price_frame" where
  "log_returns price_data =
     dropna (PriceFrame (columns price_data)
       (map2 (map2 (\<lambda>p q. np_log (fdiv p q))) (cells price_data) (cells (shift1 price_data))))"

text \<open>The values of column \<open>j\<close> that are present (pandas skips NaN in its reductions).\<close>

definition column_values :: "price_frame \<Rightarrow> nat \<Rightarrow> real list" where
  "column_values df j =
     concat (map (\<lambda>r. case r ! j of Some v \<Rightarrow> [v] | None \<Rightarrow> []) (cells df))"

definition np_mean :: "real list \<Rightarrow> real" where
  "np_mean xs = sum_list xs / real (length xs)"

text \<open>\<open>DataFrame.mean()\<close>: one mean per column, NaN for a column without values.\<close>

definition mean_returns_of :: "price_frame \<Rightarrow> float list" where
  "mean_returns_of df =
     map (\<lambda>j. let xs = column_values df j in if xs = [] then None else Some (np_mean xs))
       [0..<length (columns df)]"

text \<open>
  \<open>DataFrame.cov()\<close>: the sample covariance with denominator \<open>n - 1\<close>, NaN with fewer
  than two rows.
\<close>

definition cov_entry :: "real list \<Rightarrow> real list \<Rightarrow> float" where
  "cov_entry xs ys =
     (if length xs < 2 then None
      else Some (sum_list (map2 (\<lambda>x y. (x - np_mean xs) * (y - np_mean ys)) xs ys)
                 / real (length xs - 1)))"

definition cov_matrix_of :: "price_frame \<Rightarrow> float list list" where
  "cov_matrix_of df =
     map (\<lambda>i. map (\<lambda>j. cov_entry (column_values df i) (column_values df j))
                [0..<length (columns df)])
       [0..<length (columns df)]"

text \<open>
  A two-dimensional numpy array: its number of columns (kept apart, as an array of
  shape \<open>(0, N)\<close> still has \<open>N\<close> columns) and its rows.
\<close>

datatype ndarray = NDArray (ncols: nat) (nd_rows: "real list list")

text \<open>
  \<open>np.random.multivariate_normal(mean, cov, size)\<close> draws from numpy's global generator.
  The generator state \<open>'g\<close> is passed explicitly, and the sampler itself is an argument of
  the model: it gets the state, the mean vector, the covariance matrix and the size, and
  either raises or returns the sampled array and the next state.
\<close>

type_synonym 'g sampler =
  "'g \<Rightarrow> float list \<Rightarrow> float list list \<Rightarrow> int \<Rightarrow> np_error + (ndarray \<times> 'g)"

text \<open>\<open>simulated[:, i]\<close> for an index \<open>i\<close> that \<open>enumerate\<close> produced.\<close>

definition column :: "ndarray \<Rightarrow> nat \<Rightarrow> error + real list" where
  "column a i = (if i < ncols a then Inr (map (\<lambda>r. r ! i) (nd_rows a)) else Inl IndexError)"

text \<open>\<open>np.std\<close> with its default \<open>ddof = 0\<close>: \<open>sqrt(mean(abs(x - x.mean())**2))\<close>.\<close>

definition np_std :: "real list \<Rightarrow> real" where
  "np_std xs = sqrt (np_mean (map (\<lambda>x. \<bar>x - np_mean xs\<bar> ^ 2) xs))"

record outcome_row =
  id_col :: nat
  ticker :: string
  simulation_id :: nat
  year :: int
  starting_value :: real
  ending_value :: real
  annual_return :: real
  cumulative_return :: real
  volatility :: real
  probability :: real

text \<open>
  The body of the inner loop (lines 44 to 65): the row of ticker number \<open>i\<close> in
  simulation \<open>sim\<close>. \<open>1 / years\<close> divides two Python integers and raises
  \<open>ZeroDivisionError\<close> when \<open>years\<close> is 0; all other divisions are inside a loop that
  only runs when the divisor is not 0, or are numpy float divisions, which raise nothing.
  Where numpy yields NaN (\<open>ending_val / starting_val\<close> with \<open>portfolio_value = 0\<close>,
  \<open>np.std\<close> of an empty column) the real-valued model has 0; the statement about the
  volatility assumes positive \<open>years\<close>. Rounding is left out here; lines 44 to 50 are
  modelled once more below, with the rounding of float64 written out.
\<close>

definition ticker_body ::
  "ndarray \<Rightarrow> string list \<Rightarrow> real \<Rightarrow> int \<Rightarrow> int \<Rightarrow> nat \<Rightarrow> nat \<Rightarrow> string \<Rightarrow> nat
     \<Rightarrow> error + outcome_row" where
  "ticker_body simulated tickers portfolio_value years num_simulations sim i tk row_id =
     (let starting_val = portfolio_value / real (length tickers) in
      case column simulated i of
        Inl e \<Rightarrow> Inl e
      | Inr ticker_returns \<Rightarrow>
          let growth_factors = map exp ticker_returns;
              ending_val = starting_val * prod_list growth_factors
          in if years = 0 then Inl ZeroDivisionError
             else
               let annual_return_v = (ending_val / starting_val) powr (1 / real_of_int years) - 1;
                   cumulative_return_v = ending_val / starting_val - 1;
                   volatility_v = np_std ticker_returns * sqrt 252;
                   probability_v = 1 / real_of_int num_simulations
               in Inr \<lparr> id_col = row_id,
                        ticker = tk,
                        simulation_id = sim,
                        year = years,
                        starting_value = starting_val,
                        ending_value = ending_val,
                        annual_return = annual_return_v,
                        cumulative_return = cumulative_return_v,
                        volatility = volatility_v,
                        probability = probability_v \<rparr>)"

text \<open>
  \<open>for i, ticker in enumerate(tickers)\<close>, with the two variables the loop mutates,
  \<open>results\<close> and \<open>row_id\<close>, as its state.
\<close>

fun ticker_loop ::
  "ndarray \<Rightarrow> string list \<Rightarrow> real \<Rightarrow> int \<Rightarrow> int \<Rightarrow> nat \<Rightarrow> (nat \<times> string) list
     \<Rightarrow> outcome_row list \<times> nat \<Rightarrow> error + outcome_row list \<times> nat" where
  "ticker_loop simulated tickers portfolio_value years num_simulations sim [] st = Inr st"
| "ticker_loop simulated tickers portfolio_value years num_simulations sim ((i, tk) # rest)
     (results, row_id) =
     (case ticker_body simulated tickers portfolio_value years num_simulations sim i tk row_id of
        Inl e \<Rightarrow> Inl e
      | Inr row \<Rightarrow>
          ticker_loop simulated tickers portfolio_value years num_simulations sim rest
            (results @ [row], row_id + 1))"

text \<open>\<open>for sim in range(num_simulations)\<close>; the generator state joins the loop state.\<close>

fun sim_loop ::
  "'g sampler \<Rightarrow> float list \<Rightarrow> float list list \<Rightarrow> int \<Rightarrow> string list \<Rightarrow> real \<Rightarrow> int \<Rightarrow> int
     \<Rightarrow> nat list \<Rightarrow> 'g \<times> outcome_row list \<times> nat \<Rightarrow> error + 'g \<times> outcome_row list \<times> nat" where
  "sim_loop mvn mean_returns cov_matrix num_days tickers portfolio_value years num_simulations
     [] st = Inr st"
| "sim_loop mvn mean_returns cov_matrix num_days tickers portfolio_value years num_simulations
     (sim # sims) (g, st) =
     (case mvn g mean_returns cov_matrix num_days of
        Inl e \<Rightarrow> Inl (NumpyError e)
      | Inr (simulated, g') \<Rightarrow>
          (case ticker_loop simulated tickers portfolio_value years num_simulations sim
                  (enumerate 0 tickers) st of
             Inl e \<Rightarrow> Inl e
           | Inr st' \<Rightarrow>
               sim_loop mvn mean_returns cov_matrix num_days tickers portfolio_value years
                 num_simulations sims (g', st')))"

text \<open>\<open>range(n)\<close> of a Python integer: empty when \<open>n \<le> 0\<close>.\<close>

definition py_range :: "int \<Rightarrow> nat list" where
  "py_range n = [0..<nat n]"

text \<open>
  \<open>run_monte_carlo\<close>. \<open>start_date\<close> and \<open>end_date\<close> only reach the download, whose
  result is the argument \<open>adj_close\<close>. The result is the output table (the list of rows
  handed to \<open>pd.DataFrame\<close>) and the generator state the run leaves behind.
\<close>

definition run_monte_carlo ::
  "'g sampler \<Rightarrow> 'g \<Rightarrow> price_frame \<Rightarrow> string list \<Rightarrow> real \<Rightarrow> int \<Rightarrow> int
     \<Rightarrow> error + outcome_row list \<times> 'g" where
  "run_monte_carlo mvn g adj_close tickers portfolio_value years num_simulations =
     (let price_data = dropna adj_close;
          daily_returns = log_returns price_data;
          mean_returns = mean_returns_of daily_returns;
          cov_matrix = cov_matrix_of daily_returns;
          num_days = years * 252
      in case sim_loop mvn mean_returns cov_matrix num_days tickers portfolio_value years
                num_simulations (py_range num_simulations) (g, [], 0) of
           Inl e \<Rightarrow> Inl e
         | Inr (g', results, row_id) \<Rightarrow> Inr (results, g'))"


subsection \<open>Auxiliary notions for the statements about the engine\<close>

text \<open>The return model of a run: the mean vector and covariance matrix handed to the sampler.\<close>

definition return_model :: "price_frame \<Rightarrow> float list \<times> float list list" where
  "return_model adj_close =
     (let daily_returns = log_returns (dropna adj_close)
      in (mean_returns_of daily_returns, cov_matrix_of daily_returns))"

text \<open>
  The outcomes of \<open>k\<close> successive calls of the sampler from generator state \<open>g\<close>: the
  sampled arrays in order, ending at the first call that raises.
\<close>

fun draw_seq ::
  "'g sampler \<Rightarrow> 'g \<Rightarrow> float list \<Rightarrow> float list list \<Rightarrow> int \<Rightarrow> nat \<Rightarrow> (np_error + ndarray) list" where
  "draw_seq mvn g m c d 0 = []"
| "draw_seq mvn g m c d (Suc k) =
     (case mvn g m c d of
        Inl e \<Rightarrow> [Inl e]
      | Inr (a, g') \<Rightarrow> Inr a # draw_seq mvn g' m c d k)"

definition draws ::
  "'g sampler \<Rightarrow> 'g \<Rightarrow> price_frame \<Rightarrow> int \<Rightarrow> int \<Rightarrow> (np_error + ndarray) list" where
  "draws mvn g adj_close years num_simulations =
     draw_seq mvn g (fst (return_model adj_close)) (snd (return_model adj_close))
       (years * 252) (nat num_simulations)"

text \<open>An array of shape \<open>(n_rows, n_cols)\<close>.\<close>

definition has_shape :: "ndarray \<Rightarrow> nat \<Rightarrow> nat \<Rightarrow> bool" where
  "has_shape a n_rows n_cols =
     (ncols a = n_cols \<and> length (nd_rows a) = n_rows \<and>
      list_all (\<lambda>r. length r = n_cols) (nd_rows a))"

text \<open>
  numpy's contract for a successful call: from every generator state the sampler returns
  an array of shape \<open>(size, len(mean))\<close>.
\<close>

definition sampler_ok :: "'g sampler \<Rightarrow> float list \<Rightarrow> float list list \<Rightarrow> int \<Rightarrow> bool" where
  "sampler_ok mvn m c d =
     (\<forall>g. \<exists>a g'. mvn g m c d = Inr (a, g') \<and> has_shape a (nat d) (length m))"

text \<open>
  A deterministic stand-in for the sampler, used to run the model on concrete inputs. It
  raises as numpy does (\<open>ValueError\<close> for a negative size or mismatched shapes,
  \<open>LinAlgError\<close> when the decomposition meets a NaN) and otherwise returns the draw of
  zero variance, every row equal to the mean; the state counts the calls.
\<close>

definition mean_sampler :: "nat sampler" where
  "mean_sampler g m c d =
     (if d < 0 then Inl ValueError
      else if length c \<noteq> length m \<or> \<not> list_all (\<lambda>r. length r = length m) c then Inl ValueError
      else if \<not> list_all (\<lambda>x. x \<noteq> None) m \<or> \<not> list_all (list_all (\<lambda>x. x \<noteq> None)) c
        then Inl LinAlgError
      else Inr (NDArray (length m)
                  (replicate (nat d) (map (\<lambda>x. case x of Some v \<Rightarrow> v | None \<Rightarrow> 0) m)),
                Suc g))"

text \<open>Three trading days of two tickers, and the same with the second ticker missing.\<close>

definition sample_prices :: price_frame where
  "sample_prices =
     PriceFrame [''AAPL'', ''MSFT'']
       [[Some 100, Some 200], [Some 110, Some 210], [Some 121, Some 200]]"

definition missing_prices :: price_frame where
  "missing_prices =
     PriceFrame [''AAPL'', ''MSFT'']
       [[Some 100, None], [Some 110, None], [Some 121, None]]"


subsection \<open>Lines 44 to 50 in float64\<close>










section \<open>Cleaning of stock data (src/Transform/main.py)\<close>

text \<open>
  A frame of the data model: one row per (ticker, date) with the eight columns
  ticker, date, open, high, low, close, adj\_close, volume, which is what both callers of
  \<open>clean_stock_data\<close> pass. A value of the date column is a parsed timestamp, a day
  number and a time of day; a price or volume cell can be missing. Tickers are ASCII.
\<close>

type_synonym datetime = "int \<times> nat"

record stock_row =
  ticker :: string
  date :: datetime
  open_price :: float
  high :: float
  low :: float
  close :: float
  adj_close :: float
  volume :: float

type_synonym dataframe = "stock_row list"

text \<open>\<open>.dt.date\<close>: keep the day, drop the time of day.\<close>

definition dt_date :: "datetime \<Rightarrow> datetime" where
  "dt_date t = (fst t, 0)"

text \<open>\<open>str.upper\<close> on ASCII text.\<close>

definition char_upper :: "char \<Rightarrow> char" where
  "char_upper c =
     (let k = (of_char c :: nat) in if 97 \<le> k \<and> k \<le> 122 then char_of (k - 32) else c)"

definition str_upper :: "string \<Rightarrow> string" where
  "str_upper s = map char_upper s"

definition price_cols :: "(stock_row \<Rightarrow> float) list" where
  "price_cols = [open_price, high, low, close, adj_close]"

text \<open>\<open>df.dropna(subset=price_cols)\<close>\<close>

definition dropna_subset :: "(stock_row \<Rightarrow> float) list \<Rightarrow> dataframe \<Rightarrow> dataframe" where
  "dropna_subset cols df = filter (\<lambda>r. list_all (\<lambda>col. col r \<noteq> None) cols) df"

text \<open>Comparisons of float cells: a comparison with NaN is false.\<close>

definition fgt0 :: "float \<Rightarrow> bool" where
  "fgt0 a = (case a of Some x \<Rightarrow> 0 < x | None \<Rightarrow> False)"

definition fge :: "float \<Rightarrow> float \<Rightarrow> bool" where
  "fge a b = (case (a, b) of (Some x, Some y) \<Rightarrow> y \<le> x | _ \<Rightarrow> False)"

definition fle :: "float \<Rightarrow> float \<Rightarrow> bool" where
  "fle a b = (case (a, b) of (Some x, Some y) \<Rightarrow> x \<le> y | _ \<Rightarrow> False)"

text \<open>\<open>for col in price_cols: df = df[df[col] > 0]\<close>\<close>

fun positive_prices :: "(stock_row \<Rightarrow> float) list \<Rightarrow> dataframe \<Rightarrow> dataframe" where
  "positive_prices [] df = df"
| "positive_prices (col # cols) df = positive_prices cols (filter (\<lambda>r. fgt0 (col r)) df)"

definition valid_range :: "stock_row \<Rightarrow> bool" where
  "valid_range r =
     (fge (high r) (low r) \<and> fge (high r) (open_price r) \<and> fge (high r) (close r) \<and>
      fle (low r) (open_price r) \<and> fle (low r) (close r))"

text \<open>\<open>fillna(0)\<close> and \<open>astype(int)\<close>, which truncates towards zero.\<close>

definition fillna0 :: "float \<Rightarrow> float" where
  "fillna0 a = (case a of Some x \<Rightarrow> Some x | None \<Rightarrow> Some 0)"

definition astype_int :: "float \<Rightarrow> float" where
  "astype_int a =
     (case a of
        Some x \<Rightarrow> Some (of_int (if 0 \<le> x then \<lfloor>x\<rfloor> else \<lceil>x\<rceil>))
      | None \<Rightarrow> None)"

definition fge0 :: "float \<Rightarrow> bool" where
  "fge0 a = (case a of Some x \<Rightarrow> 0 \<le> x | None \<Rightarrow> False)"

definition row_key :: "stock_row \<Rightarrow> string \<times> datetime" where
  "row_key r = (ticker r, date r)"

text \<open>
  \<open>drop_duplicates(subset=['ticker', 'date'], keep='first')\<close>: a row is dropped when an
  earlier row has its key.
\<close>

fun drop_duplicates_seen :: "(string \<times> datetime) list \<Rightarrow> dataframe \<Rightarrow> dataframe" where
  "drop_duplicates_seen seen [] = []"
| "drop_duplicates_seen seen (r # rs) =
     (if row_key r \<in> set seen then drop_duplicates_seen seen rs
      else r # drop_duplicates_seen (row_key r # seen) rs)"

definition drop_duplicates :: "dataframe \<Rightarrow> dataframe" where
  "drop_duplicates df = drop_duplicates_seen [] df"

text \<open>
  \<open>sort_values(['ticker', 'date'])\<close>: a stable sort on the pair, tickers compared as
  Python compares strings (by character code, a proper prefix first).
\<close>

definition sort_values :: "dataframe \<Rightarrow> dataframe" where
  "sort_values df = sort_key row_key df"

definition clean_stock_data :: "dataframe \<Rightarrow> dataframe" where
  "clean_stock_data df =
     (if df = [] then df
      else
        let df1 = map (\<lambda>r. r\<lparr>date := dt_date (date r)\<rparr>) df;
            df2 = map (\<lambda>r. r\<lparr>ticker := str_upper (ticker r)\<rparr>) df1;
            df3 = dropna_subset price_cols df2;
            df4 = positive_prices price_cols df3;
            df5 = filter valid_range df4;
            df6 = map (\<lambda>r. r\<lparr>volume := fillna0 (volume r)\<rparr>) df5;
            df7 = map (\<lambda>r. r\<lparr>volume := astype_int (volume r)\<rparr>) df6;
            df8 = filter (\<lambda>r. fge0 (volume r)) df7;
            df9 = drop_duplicates df8
        in sort_values df9)"

text \<open>
  Two properties of a row: its prices and volume are valid (what the filters of
  \<open>clean_stock_data\<close> test), and it is in normal form (the three column rewrites of
  \<open>clean_stock_data\<close> leave it as it is).
\<close>

definition row_valid :: "stock_row \<Rightarrow> bool" where
  "row_valid r =
     (fgt0 (open_price r) \<and> fgt0 (high r) \<and> fgt0 (low r) \<and> fgt0 (close r) \<and>
      fgt0 (adj_close r) \<and> fge0 (volume r) \<and>
      fge (high r) (low r) \<and> fge (high r) (open_price r) \<and> fge (high r) (close r) \<and>
      fle (low r) (open_price r) \<and> fle (low r) (close r))"

definition row_normal :: "stock_row \<Rightarrow> bool" where
  "row_normal r =
     (dt_date (date r) = date r \<and> str_upper (ticker r) = ticker r \<and>
      astype_int (fillna0 (volume r)) = volume r)"

text \<open>The frame of the tests' fixture \<open>sample_stock_data\<close>, with its first row repeated
  in lower case and one row with a negative price.\<close>

definition mk_row :: "string \<Rightarrow> int \<Rightarrow> real \<Rightarrow> real \<Rightarrow> real \<Rightarrow> real \<Rightarrow> real \<Rightarrow> stock_row" where
  "mk_row tk d o_v h_v l_v c_v v =
     \<lparr> ticker = tk, date = (d, 0), open_price = Some o_v, high = Some h_v, low = Some l_v,
       close = Some c_v, adj_close = Some c_v, volume = Some v \<rparr>"

definition sample_stock_data :: dataframe where
  "sample_stock_data =
     [ mk_row ''NVDA'' 2 201 202 200 201 2100000,
       mk_row ''AAPL'' 1 150 152 149 151 1000000,
       mk_row ''NVDA'' 1 200 201 199 200 2000000,
       mk_row ''aapl'' 1 150 152 149 151 1000000,
       mk_row ''AAPL'' 2 (-50) 153 150 152 1100000 ]"


section \<open>Properties of the Monte Carlo engine\<close>

lemma run_unfold:
  "run_monte_carlo mvn g frame tickers pv years n =
     (case sim_loop mvn (fst (return_model frame)) (snd (return_model frame)) (years * 252)
             tickers pv years n [0..<nat n] (g, [], 0) of
        Inl e \<Rightarrow> Inl e
      | Inr (g', results, row_id) \<Rightarrow> Inr (results, g'))"
  by (simp add: run_monte_carlo_def return_model_def py_range_def Let_def)

lemma ticker_loop_Inr:
  "ticker_loop a T pv y n sim ets (res, rid) = Inr (res', rid') \<Longrightarrow>
     rid' = rid + length ets \<and> length res' = length res + length ets \<and>
     take (length res) res' = res \<and>
     (\<forall>k < length ets. ticker_body a T pv y n sim (fst (ets ! k)) (snd (ets ! k)) (rid + k)
          = Inr (res' ! (length res + k)))"
proof (induction ets arbitrary: res rid)
  case Nil
  then show ?case by simp
next
  case (Cons et ets)
  obtain i tk where et: "et = (i, tk)" by (cases et)
  from Cons.prems et obtain row where
    row: "ticker_body a T pv y n sim i tk rid = Inr row" and
    rest: "ticker_loop a T pv y n sim ets (res @ [row], rid + 1) = Inr (res', rid')"
    by (auto split: sum.splits)
  from Cons.IH[OF rest] have
    ih1: "rid' = rid + 1 + length ets" and
    ih2: "length res' = length (res @ [row]) + length ets" and
    ih3: "take (length (res @ [row])) res' = res @ [row]" and
    ih4: "\<forall>k < length ets. ticker_body a T pv y n sim (fst (ets ! k)) (snd (ets ! k)) (rid + 1 + k)
          = Inr (res' ! (length (res @ [row]) + k))"
    by auto
  have t: "take (length res) res' = res"
    using ih3 by (metis append_eq_conv_conj length_append_singleton butlast_snoc butlast_take diff_Suc_1 le_add1 length_append)
  have nth: "res' ! length res = row"
    using ih3 by (metis length_append_singleton lessI nth_append_length nth_take)
  show ?case
  proof (intro conjI allI impI)
    fix k assume k: "k < length (et # ets)"
    show "ticker_body a T pv y n sim (fst ((et # ets) ! k)) (snd ((et # ets) ! k)) (rid + k)
          = Inr (res' ! (length res + k))"
    proof (cases k)
      case 0
      then show ?thesis using row nth et by simp
    next
      case (Suc k')
      then show ?thesis using ih4 k by simp
    qed
  qed (use ih1 ih2 t in auto)
qed


lemma take_nth_eq: "take n xs = ys \<Longrightarrow> k < length ys \<Longrightarrow> xs ! k = ys ! k"
  by (metis nth_take length_take min_less_iff_conj)

lemma take_take_eq: "take n xs = ys \<Longrightarrow> take m ys = zs \<Longrightarrow> m \<le> n \<Longrightarrow> take m xs = zs"
  by (metis min.absorb1 take_take)

lemma sim_loop_Inr:
  "sim_loop mvn m c d T pv y n sims (g, res, rid) = Inr (g', res', rid') \<Longrightarrow>
     rid' = rid + length sims * length T \<and>
     length res' = length res + length sims * length T \<and>
     take (length res) res' = res \<and>
     (\<exists>arrs. draw_seq mvn g m c d (length sims) = map Inr arrs \<and> length arrs = length sims \<and>
        (\<forall>j < length sims. \<forall>i < length T.
           ticker_body (arrs ! j) T pv y n (sims ! j) i (T ! i) (rid + j * length T + i)
             = Inr (res' ! (length res + j * length T + i))))"
proof (induction sims arbitrary: g res rid)
  case Nil
  then show ?case by simp
next
  case (Cons s ss)
  from Cons.prems obtain a g1 res1 rid1 where
    draw: "mvn g m c d = Inr (a, g1)" and
    inner: "ticker_loop a T pv y n s (enumerate 0 T) (res, rid) = Inr (res1, rid1)" and
    rest: "sim_loop mvn m c d T pv y n ss (g1, res1, rid1) = Inr (g', res', rid')"
    by (auto split: sum.splits prod.splits)
  from ticker_loop_Inr[OF inner] have
    a1: "rid1 = rid + length T" and
    a2: "length res1 = length res + length T" and
    a3: "take (length res) res1 = res" and
    a4: "\<forall>k < length T. ticker_body a T pv y n s k (T ! k) (rid + k) = Inr (res1 ! (length res + k))"
    by (auto simp: nth_enumerate_eq)
  from Cons.IH[OF rest] obtain arrs where
    b1: "rid' = rid1 + length ss * length T" and
    b2: "length res' = length res1 + length ss * length T" and
    b3: "take (length res1) res' = res1" and
    b4: "draw_seq mvn g1 m c d (length ss) = map Inr arrs" and
    b5: "length arrs = length ss" and
    b6: "\<forall>j < length ss. \<forall>i < length T.
           ticker_body (arrs ! j) T pv y n (ss ! j) i (T ! i) (rid1 + j * length T + i)
             = Inr (res' ! (length res1 + j * length T + i))"
    by blast
  have c1: "draw_seq mvn g m c d (length (s # ss)) = map Inr (a # arrs)"
    using draw b4 by simp
  have c2: "take (length res) res' = res"
    using take_take_eq[OF b3 a3] a2 by simp
  have c3: "ticker_body ((a # arrs) ! j) T pv y n ((s # ss) ! j) i (T ! i) (rid + j * length T + i)
             = Inr (res' ! (length res + j * length T + i))"
    if j: "j < length (s # ss)" and i: "i < length T" for j i
  proof (cases j)
    case 0
    have "res' ! (length res + i) = res1 ! (length res + i)"
      using take_nth_eq[OF b3] a2 i by simp
    then show ?thesis using 0 a4 i by simp
  next
    case (Suc j')
    then have "j' < length ss" using j by simp
    from b6[rule_format, OF this i] show ?thesis
      using Suc a1 a2 by (simp add: ac_simps)
  qed
  show ?case
    apply (intro conjI)
       apply (simp add: b1 a1)
      apply (simp add: b2 a2)
     apply (rule c2)
    apply (rule exI[of _ "a # arrs"])
    using c1 b5 c3 apply simp
    done
qed

lemma run_Inr:
  assumes "run_monte_carlo mvn g frame T pv y n = Inr (table, g')"
  shows "length table = nat n * length T"
    and "\<exists>arrs. draws mvn g frame y n = map Inr arrs \<and> length arrs = nat n \<and>
        (\<forall>s < nat n. \<forall>i < length T.
           ticker_body (arrs ! s) T pv y n s i (T ! i) (s * length T + i)
             = Inr (table ! (s * length T + i)))"
proof -
  from assms obtain rid where
    sl: "sim_loop mvn (fst (return_model frame)) (snd (return_model frame)) (y * 252)
             T pv y n [0..<nat n] (g, [], 0) = Inr (g', table, rid)"
    unfolding run_unfold by (auto split: sum.splits prod.splits)
  from sim_loop_Inr[OF sl] show "length table = nat n * length T" by simp
  from sim_loop_Inr[OF sl] show "\<exists>arrs. draws mvn g frame y n = map Inr arrs \<and> length arrs = nat n \<and>
        (\<forall>s < nat n. \<forall>i < length T.
           ticker_body (arrs ! s) T pv y n s i (T ! i) (s * length T + i)
             = Inr (table ! (s * length T + i)))"
    unfolding draws_def by simp
qed



lemma upt2: "[0..<2] = [0, Suc 0]" by (simp add: upt_rec)

lemma return_model_sample:
  "\<exists>a b c d e f. return_model sample_prices = ([Some a, Some b], [[Some c, Some d], [Some e, Some f]])"
  by (simp add: return_model_def sample_prices_def Let_def log_returns_def dropna_def shift1_def
      fdiv_def np_log_def mean_returns_of_def cov_matrix_of_def cov_entry_def column_values_def upt2)

lemma return_model_missing:
  "return_model missing_prices = ([None, None], [[None, None], [None, None]])"
  by (simp add: return_model_def missing_prices_def Let_def log_returns_def dropna_def shift1_def
      fdiv_def np_log_def mean_returns_of_def cov_matrix_of_def cov_entry_def column_values_def upt2)

lemma mean_sampler_ok_sample:
  "0 \<le> d \<Longrightarrow> sampler_ok mean_sampler (fst (return_model sample_prices)) (snd (return_model sample_prices)) d"
proof -
  assume d: "0 \<le> d"
  from return_model_sample obtain a b c k e f where
    rm: "return_model sample_prices = ([Some a, Some b], [[Some c, Some k], [Some e, Some f]])"
    by blast
  show ?thesis
    using d by (simp add: rm sampler_ok_def mean_sampler_def has_shape_def list_all_iff)
qed


lemma return_model_length: "length (fst (return_model frame)) = length (columns frame)"
  by (simp add: return_model_def Let_def mean_returns_of_def log_returns_def dropna_def)

lemma ticker_body_Inr:
  assumes "ticker_body a T pv y n s i tk rid = Inr row"
  shows "y \<noteq> 0"
    and "id_col row = rid"
    and "outcome_row.ticker row = tk"
    and "simulation_id row = s"
    and "year row = y"
    and "starting_value row = pv / real (length T)"
    and "probability row = 1 / real_of_int n"
    and "\<exists>rets. column a i = Inr rets \<and>
           ending_value row = starting_value row * prod_list (map exp rets) \<and>
           annual_return row =
             (ending_value row / starting_value row) powr (1 / real_of_int y) - 1 \<and>
           cumulative_return row = ending_value row / starting_value row - 1 \<and>
           volatility row = np_std rets * sqrt 252"
  using assms
  by (auto simp: ticker_body_def Let_def split: sum.splits if_splits)

lemma ticker_body_ok:
  "y \<noteq> 0 \<Longrightarrow> i < ncols a \<Longrightarrow> \<exists>row. ticker_body a T pv y n s i tk rid = Inr row"
  by (simp add: ticker_body_def Let_def column_def)

lemma ticker_loop_ok:
  "y \<noteq> 0 \<Longrightarrow> \<forall>et \<in> set ets. fst et < ncols a \<Longrightarrow>
     \<exists>st'. ticker_loop a T pv y n s ets st = Inr st'"
proof (induction ets arbitrary: st)
  case Nil
  then show ?case by simp
next
  case (Cons et ets)
  obtain i tk where et: "et = (i, tk)" by (cases et)
  obtain res rid where st: "st = (res, rid)" by (cases st)
  from Cons.prems et obtain row where "ticker_body a T pv y n s i tk rid = Inr row"
    using ticker_body_ok[of y i a T pv n s tk rid] by auto
  moreover from Cons have
    "\<exists>st'. ticker_loop a T pv y n s ets (res @ [row], rid + 1) = Inr st'"
    by simp
  ultimately show ?case by (simp add: et st)
qed

lemma sim_loop_ok:
  assumes "sampler_ok mvn m c d" and "length m = length T" and "y \<noteq> 0"
  shows "\<exists>st'. sim_loop mvn m c d T pv y n sims (g, st) = Inr st'"
proof (induction sims arbitrary: g st)
  case Nil
  then show ?case by simp
next
  case (Cons s ss)
  from assms(1) obtain a g1 where
    draw: "mvn g m c d = Inr (a, g1)" and shape: "has_shape a (nat d) (length m)"
    unfolding sampler_ok_def by blast
  have "\<forall>et \<in> set (enumerate 0 T). fst et < ncols a"
    using shape assms(2) by (auto simp: has_shape_def in_set_enumerate_eq)
  from ticker_loop_ok[OF assms(3) this] obtain st1 where
    "ticker_loop a T pv y n s (enumerate 0 T) st = Inr st1" by blast
  then show ?case using draw Cons.IH[of g1 st1] by simp
qed

lemma run_succeeds:
  assumes "sampler_ok mvn (fst (return_model frame)) (snd (return_model frame)) (y * 252)"
    and "length (columns frame) = length T" and "y \<noteq> 0"
  shows "\<exists>table g'. run_monte_carlo mvn g frame T pv y n = Inr (table, g')"
proof -
  have "length (fst (return_model frame)) = length T"
    using assms(2) by (simp add: return_model_length)
  from sim_loop_ok[OF assms(1) this assms(3), of pv n "[0..<nat n]" g "([], 0)"]
  show ?thesis unfolding run_unfold by (auto split: prod.splits)
qed



lemma div_mod_index:
  fixes k N :: nat
  assumes "k < n * N"
  shows "k div N < n" and "k mod N < N" and "k div N * N + k mod N = k"
proof -
  from assms have N: "0 < N" by (cases N) auto
  show "k div N < n" using assms N by (simp add: less_mult_imp_div_less)
  show "k mod N < N" using N by simp
  show "k div N * N + k mod N = k" by simp
qed



lemma ticker_body_Inl:
  "ticker_body a T pv y n s i tk rid = Inl e \<Longrightarrow> e = IndexError \<or> e = ZeroDivisionError \<and> y = 0"
  by (auto simp: ticker_body_def column_def Let_def split: if_splits)

lemma ticker_loop_Inl:
  "ticker_loop a T pv y n s ets st = Inl e \<Longrightarrow>
     (e = IndexError \<or> e = ZeroDivisionError \<and> y = 0) \<and> ets \<noteq> []"
proof (induction ets arbitrary: st)
  case Nil
  then show ?case by simp
next
  case (Cons et ets)
  obtain i tk where et: "et = (i, tk)" by (cases et)
  obtain res rid where st: "st = (res, rid)" by (cases st)
  show ?case
  proof (cases "ticker_body a T pv y n s i tk rid")
    case (Inl e')
    with Cons.prems et st have "e' = e" by simp
    with Inl ticker_body_Inl show ?thesis by blast
  next
    case (Inr row)
    with Cons.prems et st have
      "ticker_loop a T pv y n s ets (res @ [row], rid + 1) = Inl e" by simp
    from Cons.IH[OF this] show ?thesis by simp
  qed
qed

lemma sim_loop_Inl:
  "sim_loop mvn m c d T pv y n sims (g, st) = Inl e \<Longrightarrow>
     (e = IndexError \<or> e = ZeroDivisionError \<and> y = 0) \<and> T \<noteq> [] \<or> (\<exists>ne. e = NumpyError ne)"
proof (induction sims arbitrary: g st)
  case Nil
  then show ?case by simp
next
  case (Cons s ss)
  show ?case
  proof (cases "mvn g m c d")
    case (Inl ne)
    with Cons.prems show ?thesis by auto
  next
    case (Inr p)
    obtain a g1 where p: "p = (a, g1)" by (cases p)
    show ?thesis
    proof (cases "ticker_loop a T pv y n s (enumerate 0 T) st")
      case (Inl e')
      with Cons.prems Inr p have "e' = e" by simp
      with Inl ticker_loop_Inl[of a T pv y n s "enumerate 0 T" st e] show ?thesis
        by (auto simp: enumerate_eq_zip)
    next
      case (Inr st1)
      with Cons.prems \<open>mvn g m c d = Inr p\<close> p have
        "sim_loop mvn m c d T pv y n ss (g1, st1) = Inl e" by simp
      from Cons.IH[OF this] show ?thesis .
    qed
  qed
qed

lemma run_Inl:
  assumes "run_monte_carlo mvn g frame T pv y n = Inl e"
  shows "(e = IndexError \<or> e = ZeroDivisionError \<and> y = 0) \<and> T \<noteq> [] \<or> (\<exists>ne. e = NumpyError ne)"
proof -
  from assms have
    "sim_loop mvn (fst (return_model frame)) (snd (return_model frame)) (y * 252)
       T pv y n [0..<nat n] (g, [], 0) = Inl e"
    unfolding run_unfold by (auto split: sum.splits prod.splits)
  from sim_loop_Inl[OF this] show ?thesis .
qed

lemma dropna_all_missing:
  assumes "\<forall>r \<in> set (cells frame). j < length r \<and> r ! j = None"
  shows "cells (dropna frame) = []"
proof -
  have "\<not> list_all (\<lambda>c. c \<noteq> None) r" if "r \<in> set (cells frame)" for r
    using assms that by (auto simp: list_all_length)
  then show ?thesis by (simp add: dropna_def filter_empty_conv)
qed

lemma return_model_all_missing:
  assumes "\<forall>r \<in> set (cells frame). j < length r \<and> r ! j = None"
  shows "return_model frame =
           (replicate (length (columns frame)) None,
            replicate (length (columns frame)) (replicate (length (columns frame)) None))"
proof -
  have "cells (log_returns (dropna frame)) = []"
    using dropna_all_missing[OF assms] by (simp add: log_returns_def dropna_def)
  moreover have "columns (log_returns (dropna frame)) = columns frame"
    by (simp add: log_returns_def dropna_def)
  ultimately show ?thesis
    by (simp add: return_model_def Let_def mean_returns_of_def cov_matrix_of_def
        column_values_def cov_entry_def map_replicate_const)
qed

lemma ticker_body_pv:
  "map_sum id (\<lambda>_. ()) (ticker_body a T pv y n s i tk rid)
     = map_sum id (\<lambda>_. ()) (ticker_body a T pv' y n s i tk rid')"
  by (simp add: ticker_body_def Let_def column_def)

lemma ticker_loop_pv:
  "map_sum id snd (ticker_loop a T pv y n s ets (res, rid))
     = map_sum id snd (ticker_loop a T pv' y n s ets (res', rid))"
proof (induction ets arbitrary: res res' rid)
  case Nil
  then show ?case by simp
next
  case (Cons et ets)
  obtain i tk where et: "et = (i, tk)" by (cases et)
  from ticker_body_pv[of a T pv y n s i tk rid pv' rid] show ?case
    using Cons.IH by (cases "ticker_body a T pv y n s i tk rid";
        cases "ticker_body a T pv' y n s i tk rid") (simp_all add: et)
qed

lemma sim_loop_pv:
  "map_sum id (\<lambda>(g, res, rid). (g, rid)) (sim_loop mvn m c d T pv y n sims (g, res, rid))
     = map_sum id (\<lambda>(g, res, rid). (g, rid)) (sim_loop mvn m c d T pv' y n sims (g, res', rid))"
proof (induction sims arbitrary: g res res' rid)
  case Nil
  then show ?case by simp
next
  case (Cons s ss)
  show ?case
  proof (cases "mvn g m c d")
    case (Inl e)
    then show ?thesis by simp
  next
    case (Inr p)
    obtain a g1 where p: "p = (a, g1)" by (cases p)
    from ticker_loop_pv[of a T pv y n s "enumerate 0 T" res rid pv' res'] show ?thesis
      using Cons.IH Inr p
      by (cases "ticker_loop a T pv y n s (enumerate 0 T) (res, rid)";
          cases "ticker_loop a T pv' y n s (enumerate 0 T) (res', rid)") auto
  qed
qed

lemma run_pv:
  "map_sum id snd (run_monte_carlo mvn g frame T pv y n)
     = map_sum id snd (run_monte_carlo mvn g frame T pv' y n)"
proof -
  let ?run = "\<lambda>pv. sim_loop mvn (fst (return_model frame)) (snd (return_model frame)) (y * 252)
                      T pv y n [0..<nat n] (g, [], 0)"
  have conv: "map_sum id snd (run_monte_carlo mvn g frame T pv y n)
                = map_sum id fst (map_sum id (\<lambda>(g, res, rid). (g, rid)) (?run pv))" for pv
    unfolding run_unfold by (auto split: sum.splits prod.splits)
  show ?thesis unfolding conv sim_loop_pv[of mvn _ _ _ T pv y n _ g "[]" 0 pv' "[]"] ..
qed

lemma run_years_0:
  assumes "0 < n" and "T \<noteq> []"
    and "mvn g (fst (return_model frame)) (snd (return_model frame)) 0 = Inr (a, g1)"
    and "0 < ncols a"
  shows "run_monte_carlo mvn g frame T pv 0 n = Inl ZeroDivisionError"
proof -
  from assms(1) have upt: "[0..<nat n] = 0 # [Suc 0..<nat n]" by (simp add: upt_conv_Cons)
  from assms(2) obtain tk rest where T: "T = tk # rest" by (cases T) auto
  have "ticker_body a T pv 0 n 0 0 tk 0 = Inl ZeroDivisionError"
    using assms(4) by (simp add: ticker_body_def column_def Let_def)
  then have "ticker_loop a T pv 0 n 0 (enumerate 0 T) ([], 0) = Inl ZeroDivisionError"
    by (simp add: T)
  then show ?thesis
    unfolding run_unfold upt using assms(3) by simp
qed

lemma run_first_draw_fails:
  assumes "0 < n"
    and "mvn g (fst (return_model frame)) (snd (return_model frame)) (y * 252) = Inl e"
  shows "run_monte_carlo mvn g frame T pv y n = Inl (NumpyError e)"
proof -
  from assms(1) have upt: "[0..<nat n] = 0 # [Suc 0..<nat n]" by (simp add: upt_conv_Cons)
  show ?thesis unfolding run_unfold upt using assms(2) by simp
qed

text \<open>
  C1. With positive \<open>years\<close>, a price frame with one column per ticker and a sampler
  that keeps numpy's contract, \<open>run_monte_carlo\<close> returns a table, and the table has
  exactly \<open>num_simulations * N\<close> rows, one row per pair of simulation index and ticker:
  its (simulation\_id, ticker) columns are the product of \<open>range(num_simulations)\<close> and
  \<open>tickers\<close>.
\<close>

theorem run_monte_carlo_row_count:
  assumes "0 < num_simulations" and "0 < years"
    and "length (columns frame) = length tickers"
    and "sampler_ok mvn (fst (return_model frame)) (snd (return_model frame))
           (years * 252)"
  shows "\<exists>table g'.
           run_monte_carlo mvn g frame tickers portfolio_value years num_simulations
             = Inr (table, g') \<and>
           length table = nat num_simulations * length tickers \<and>
           map (\<lambda>r. (simulation_id r, outcome_row.ticker r)) table
             = List.product [0..<nat num_simulations] tickers"
proof -
  from assms(2) have y: "years \<noteq> 0" by simp
  from run_succeeds[OF assms(4) assms(3) y] obtain table g' where
    run: "run_monte_carlo mvn g frame tickers portfolio_value years num_simulations
            = Inr (table, g')"
    by blast
  let ?N = "length tickers" and ?n = "nat num_simulations"
  have len: "length table = ?n * ?N" by (rule run_Inr(1)[OF run])
  from run_Inr(2)[OF run] obtain arrs where
    rows: "\<forall>s < ?n. \<forall>i < ?N.
             ticker_body (arrs ! s) tickers portfolio_value years num_simulations s i
               (tickers ! i) (s * ?N + i) = Inr (table ! (s * ?N + i))"
    by blast
  have "map (\<lambda>r. (simulation_id r, outcome_row.ticker r)) table = List.product [0..<?n] tickers"
  proof (rule nth_equalityI)
    show "length (map (\<lambda>r. (simulation_id r, outcome_row.ticker r)) table)
            = length (List.product [0..<?n] tickers)"
      using len by simp
  next
    fix k assume "k < length (map (\<lambda>r. (simulation_id r, outcome_row.ticker r)) table)"
    then have k: "k < ?n * ?N" using len by simp
    note dm = div_mod_index[OF k]
    from rows dm(1) dm(2) have
      "ticker_body (arrs ! (k div ?N)) tickers portfolio_value years num_simulations (k div ?N)
         (k mod ?N) (tickers ! (k mod ?N)) (k div ?N * ?N + k mod ?N)
         = Inr (table ! (k div ?N * ?N + k mod ?N))"
      by blast
    then have b: "ticker_body (arrs ! (k div ?N)) tickers portfolio_value years num_simulations
         (k div ?N) (k mod ?N) (tickers ! (k mod ?N)) k = Inr (table ! k)"
      using dm(3) by simp
    have "List.product [0..<?n] tickers ! k = (k div ?N, tickers ! (k mod ?N))"
      using k dm(1) by (simp add: product_nth)
    then show "map (\<lambda>r. (simulation_id r, outcome_row.ticker r)) table ! k
                 = List.product [0..<?n] tickers ! k"
      using ticker_body_Inr(3,4)[OF b] k len by simp
  qed
  with run len show ?thesis by blast
qed

theorem run_monte_carlo_row_count_witness:
  "\<exists>table g'.
     run_monte_carlo mean_sampler 0 sample_prices [''AAPL'', ''MSFT''] 250000 1 3
       = Inr (table, g') \<and>
     length table = 6 \<and>
     map (\<lambda>r. (simulation_id r, outcome_row.ticker r)) table =
       [(0, ''AAPL''), (0, ''MSFT''), (1, ''AAPL''), (1, ''MSFT''), (2, ''AAPL''), (2, ''MSFT'')]"
proof -
  have ok: "sampler_ok mean_sampler (fst (return_model sample_prices))
              (snd (return_model sample_prices)) (1 * 252)"
    by (rule mean_sampler_ok_sample) simp
  have cols: "length (columns sample_prices) = length [''AAPL'', ''MSFT'']"
    by (simp add: sample_prices_def)
  have upt3: "[0..<3] = [0, 1, 2]" by (simp add: upt_rec)
  from run_monte_carlo_row_count[OF _ _ cols ok, of 3 0 250000]
  show ?thesis by (simp add: upt3)
qed

text \<open>
  C2. In the table a run returns, the id column is \<open>0, 1, 2, \<dots>\<close> without gaps, and
  the row of simulation \<open>s\<close> and ticker number \<open>i\<close> is at position \<open>s * N + i\<close> and
  carries that number as its id.
\<close>

theorem run_monte_carlo_ids:
  assumes "run_monte_carlo mvn g frame tickers portfolio_value years num_simulations
             = Inr (table, g')"
  shows "map id_col table = [0..<length table] \<and>
         (\<forall>s < nat num_simulations. \<forall>i < length tickers.
            id_col (table ! (s * length tickers + i)) = s * length tickers + i \<and>
            simulation_id (table ! (s * length tickers + i)) = s \<and>
            outcome_row.ticker (table ! (s * length tickers + i)) = tickers ! i)"
proof -
  let ?N = "length tickers" and ?n = "nat num_simulations"
  have len: "length table = ?n * ?N" by (rule run_Inr(1)[OF assms])
  from run_Inr(2)[OF assms] obtain arrs where
    rows: "\<forall>s < ?n. \<forall>i < ?N.
             ticker_body (arrs ! s) tickers portfolio_value years num_simulations s i
               (tickers ! i) (s * ?N + i) = Inr (table ! (s * ?N + i))"
    by blast
  have at: "id_col (table ! (s * ?N + i)) = s * ?N + i \<and>
            simulation_id (table ! (s * ?N + i)) = s \<and>
            outcome_row.ticker (table ! (s * ?N + i)) = tickers ! i"
    if "s < ?n" and "i < ?N" for s i
  proof -
    from rows that have
      b: "ticker_body (arrs ! s) tickers portfolio_value years num_simulations s i
            (tickers ! i) (s * ?N + i) = Inr (table ! (s * ?N + i))"
      by blast
    show ?thesis using ticker_body_Inr(2,3,4)[OF b] by simp
  qed
  have "map id_col table = [0..<length table]"
  proof (rule nth_equalityI)
    show "length (map id_col table) = length [0..<length table]" by simp
  next
    fix k assume "k < length (map id_col table)"
    then have k: "k < ?n * ?N" using len by simp
    note dm = div_mod_index[OF k]
    from at[OF dm(1) dm(2)] have "id_col (table ! k) = k" using dm(3) by simp
    then show "map id_col table ! k = [0..<length table] ! k" using k len by simp
  qed
  with at show ?thesis by blast
qed

theorem run_monte_carlo_ids_witness:
  "\<exists>table g'.
     run_monte_carlo mean_sampler 0 sample_prices [''AAPL'', ''MSFT''] 250000 1 2
       = Inr (table, g') \<and>
     map id_col table = [0..<length table] \<and>
     id_col (table ! (1 * 2 + 1)) = 3"
proof -
  have ok: "sampler_ok mean_sampler (fst (return_model sample_prices))
              (snd (return_model sample_prices)) (1 * 252)"
    by (rule mean_sampler_ok_sample) simp
  have cols: "length (columns sample_prices) = length [''AAPL'', ''MSFT'']"
    by (simp add: sample_prices_def)
  from run_succeeds[OF ok cols, of 0 250000 2] obtain table g' where
    run: "run_monte_carlo mean_sampler 0 sample_prices [''AAPL'', ''MSFT''] 250000 1 2
            = Inr (table, g')"
    by auto
  from run_monte_carlo_ids[OF run] have
    a: "map id_col table = [0..<length table]" and
    b: "\<forall>s < nat 2. \<forall>i < length [''AAPL'', ''MSFT''].
          id_col (table ! (s * length [''AAPL'', ''MSFT''] + i))
            = s * length [''AAPL'', ''MSFT''] + i \<and>
          simulation_id (table ! (s * length [''AAPL'', ''MSFT''] + i)) = s \<and>
          outcome_row.ticker (table ! (s * length [''AAPL'', ''MSFT''] + i))
            = [''AAPL'', ''MSFT''] ! i"
    by blast+
  from b[rule_format, of 1 1] have "id_col (table ! (1 * 2 + 1)) = 3"
    by (simp add: numeral_3_eq_3)
  with run a show ?thesis by blast
qed






text \<open>
  C3, as the code has it. \<open>run_monte_carlo\<close> validates nothing and never fails with
  \<open>InvalidParameterError\<close>. A non-positive \<open>num_simulations\<close> gives the empty table and
  no error. \<open>years = 0\<close> fails with \<open>ZeroDivisionError\<close>, raised while the first row is
  computed, after the return model has been estimated and the first path sampled (given
  at least one simulation, a ticker and a first draw with a column). With an empty
  ticker list the engine raises nothing of its own: a returned table is empty and a
  failure is the sampler's. \<open>portfolio_value\<close> is never checked: whether the run fails,
  and how, does not depend on it.
\<close>

theorem run_monte_carlo_no_validation:
  "run_monte_carlo mvn g frame tickers portfolio_value years num_simulations
     \<noteq> Inl InvalidParameterError \<and>
   (num_simulations \<le> 0 \<longrightarrow>
      run_monte_carlo mvn g frame tickers portfolio_value years num_simulations = Inr ([], g)) \<and>
   (years = 0 \<and> 0 < num_simulations \<and> tickers \<noteq> [] \<and>
    mvn g (fst (return_model frame)) (snd (return_model frame)) 0 = Inr (a, g1) \<and> 0 < ncols a \<longrightarrow>
      run_monte_carlo mvn g frame tickers portfolio_value years num_simulations
        = Inl ZeroDivisionError) \<and>
   (tickers = [] \<longrightarrow>
      (\<forall>table g'.
         run_monte_carlo mvn g frame tickers portfolio_value years num_simulations
           = Inr (table, g') \<longrightarrow> table = []) \<and>
      (\<forall>e. run_monte_carlo mvn g frame tickers portfolio_value years num_simulations = Inl e
         \<longrightarrow> (\<exists>ne. e = NumpyError ne))) \<and>
   map_sum id snd (run_monte_carlo mvn g frame tickers portfolio_value years num_simulations)
     = map_sum id snd (run_monte_carlo mvn g frame tickers pv' years num_simulations)"
proof (intro conjI impI allI)
  show "run_monte_carlo mvn g frame tickers portfolio_value years num_simulations
          \<noteq> Inl InvalidParameterError"
  proof
    assume "run_monte_carlo mvn g frame tickers portfolio_value years num_simulations
              = Inl InvalidParameterError"
    from run_Inl[OF this] show False by simp
  qed
next
  assume "num_simulations \<le> 0"
  then show "run_monte_carlo mvn g frame tickers portfolio_value years num_simulations
               = Inr ([], g)"
    by (simp add: run_unfold)
next
  assume h: "years = 0 \<and> 0 < num_simulations \<and> tickers \<noteq> [] \<and>
    mvn g (fst (return_model frame)) (snd (return_model frame)) 0 = Inr (a, g1) \<and> 0 < ncols a"
  then have "run_monte_carlo mvn g frame tickers portfolio_value 0 num_simulations
               = Inl ZeroDivisionError"
    by (intro run_years_0[where a = a and ?g1.0 = g1]) simp_all
  with h show "run_monte_carlo mvn g frame tickers portfolio_value years num_simulations
               = Inl ZeroDivisionError"
    by simp
next
  fix table g'
  assume T: "tickers = []"
    and run: "run_monte_carlo mvn g frame tickers portfolio_value years num_simulations
           = Inr (table, g')"
  from run_Inr(1)[OF run] T show "table = []" by simp
next
  fix e
  assume T: "tickers = []"
    and run: "run_monte_carlo mvn g frame tickers portfolio_value years num_simulations = Inl e"
  from run_Inl[OF run] T show "\<exists>ne. e = NumpyError ne" by simp
next
  show "map_sum id snd
          (run_monte_carlo mvn g frame tickers portfolio_value years num_simulations)
        = map_sum id snd (run_monte_carlo mvn g frame tickers pv' years num_simulations)"
    by (rule run_pv)
qed

theorem run_monte_carlo_no_validation_witness:
  "run_monte_carlo mean_sampler 0 sample_prices [''AAPL'', ''MSFT''] 250000 0 1
     = Inl ZeroDivisionError \<and>
   run_monte_carlo mean_sampler 0 sample_prices [''AAPL'', ''MSFT''] 250000 10 (- 5)
     = Inr ([], 0) \<and>
   (\<exists>g'. run_monte_carlo mean_sampler 0 sample_prices [] 250000 10 1 = Inr ([], g'))"
proof -
  from return_model_sample obtain a b c k e f where
    rm: "return_model sample_prices = ([Some a, Some b], [[Some c, Some k], [Some e, Some f]])"
    by blast
  have draw: "mean_sampler 0 (fst (return_model sample_prices))
                (snd (return_model sample_prices)) 0 = Inr (NDArray 2 [], Suc 0)"
    by (simp add: rm mean_sampler_def)
  have "run_monte_carlo mean_sampler 0 sample_prices [''AAPL'', ''MSFT''] 250000 0 1
          = Inl ZeroDivisionError"
    using run_monte_carlo_no_validation[of mean_sampler 0 sample_prices "[''AAPL'', ''MSFT'']"
        250000 0 1 "NDArray 2 []" "Suc 0"] draw
    by simp
  moreover have "run_monte_carlo mean_sampler 0 sample_prices [''AAPL'', ''MSFT''] 250000 10 (- 5)
          = Inr ([], 0)"
    using run_monte_carlo_no_validation[of mean_sampler 0 sample_prices "[''AAPL'', ''MSFT'']"
        250000 10 "- 5"]
    by simp
  moreover have "\<exists>g'. run_monte_carlo mean_sampler 0 sample_prices [] 250000 10 1 = Inr ([], g')"
  proof -
    have "\<exists>table g'. run_monte_carlo mean_sampler 0 sample_prices [] 250000 10 1
            = Inr (table, g')"
      by (simp add: run_unfold rm mean_sampler_def)
    then obtain table g' where
      run: "run_monte_carlo mean_sampler 0 sample_prices [] 250000 10 1 = Inr (table, g')"
      by blast
    with run_monte_carlo_no_validation[of mean_sampler 0 sample_prices "[]" 250000 10 1]
    have "table = []" by blast
    with run show ?thesis by blast
  qed
  ultimately show ?thesis by blast
qed

text \<open>
  C3 as stated fails: with \<open>num_simulations = 0\<close> and every other parameter valid, the
  run raises nothing and returns the empty table.
\<close>

theorem run_monte_carlo_zero_simulations_counterexample:
  "run_monte_carlo mean_sampler 0 sample_prices [''AAPL'', ''MSFT''] 250000 10 0 = Inr ([], 0) \<and>
   run_monte_carlo mean_sampler 0 sample_prices [''AAPL'', ''MSFT''] 250000 10 0
     \<noteq> Inl InvalidParameterError"
  by (simp add: run_unfold)

text \<open>
  C4, as the code has it. When a requested ticker's column is missing on every day,
  alignment leaves no row, every entry of the mean vector and of the covariance matrix
  handed to the sampler is NaN, and \<open>run_monte_carlo\<close> raises no
  \<open>MissingTickerDataError\<close>. What happens is the sampler's doing: if it raises on that
  input, a run of at least one simulation fails with the sampler's exception and
  returns no partial result.
\<close>

theorem run_monte_carlo_missing_ticker:
  assumes "j < length (columns frame)"
    and "\<forall>r \<in> set (cells frame). j < length r \<and> r ! j = None"
  shows "return_model frame =
           (replicate (length (columns frame)) None,
            replicate (length (columns frame)) (replicate (length (columns frame)) None)) \<and>
         (\<forall>t. run_monte_carlo mvn g frame tickers portfolio_value years num_simulations
                \<noteq> Inl (MissingTickerDataError t)) \<and>
         (0 < num_simulations \<and>
          mvn g (replicate (length (columns frame)) None)
            (replicate (length (columns frame)) (replicate (length (columns frame)) None))
            (years * 252) = Inl e \<longrightarrow>
            run_monte_carlo mvn g frame tickers portfolio_value years num_simulations
              = Inl (NumpyError e))"
proof (intro conjI impI allI)
  show rm: "return_model frame =
           (replicate (length (columns frame)) None,
            replicate (length (columns frame)) (replicate (length (columns frame)) None))"
    by (rule return_model_all_missing[OF assms(2)])
  show "run_monte_carlo mvn g frame tickers portfolio_value years num_simulations
          \<noteq> Inl (MissingTickerDataError t)" for t
  proof
    assume "run_monte_carlo mvn g frame tickers portfolio_value years num_simulations
              = Inl (MissingTickerDataError t)"
    from run_Inl[OF this] show False by simp
  qed
  assume h: "0 < num_simulations \<and>
          mvn g (replicate (length (columns frame)) None)
            (replicate (length (columns frame)) (replicate (length (columns frame)) None))
            (years * 252) = Inl e"
  show "run_monte_carlo mvn g frame tickers portfolio_value years num_simulations
          = Inl (NumpyError e)"
    using h by (intro run_first_draw_fails) (simp_all add: rm)
qed

theorem run_monte_carlo_missing_ticker_witness:
  "1 < length (columns missing_prices) \<and>
   list_all (\<lambda>r. 1 < length r \<and> r ! 1 = None) (cells missing_prices) \<and>
   return_model missing_prices = ([None, None], [[None, None], [None, None]]) \<and>
   run_monte_carlo mean_sampler 0 missing_prices [''AAPL'', ''MSFT''] 250000 1 3
     = Inl (NumpyError LinAlgError)"
proof -
  have a: "1 < length (columns missing_prices)" by (simp add: missing_prices_def)
  have b: "\<forall>r \<in> set (cells missing_prices). 1 < length r \<and> r ! 1 = None"
    by (simp add: missing_prices_def)
  have c: "length (columns missing_prices) = 2" by (simp add: missing_prices_def)
  have r2: "replicate 2 x = [x, x]" for x :: 'a by (simp add: numeral_2_eq_2)
  have d: "mean_sampler 0 [None, None] [[None, None], [None, None]] (1 * 252) = Inl LinAlgError"
    by (simp add: mean_sampler_def)
  from run_monte_carlo_missing_ticker[OF a b, of mean_sampler 0 "[''AAPL'', ''MSFT'']" 250000 1 3
      LinAlgError] a b d
  show ?thesis by (simp add: c r2 list_all_iff)
qed

text \<open>
  C4 as stated fails: on a frame whose MSFT column is missing on every day, the run does
  not fail with \<open>MissingTickerDataError\<close> naming MSFT; the sampler's exception comes out.
\<close>

theorem run_monte_carlo_all_missing_counterexample:
  "run_monte_carlo mean_sampler 0 missing_prices [''AAPL'', ''MSFT''] 250000 10 1000
     = Inl (NumpyError LinAlgError) \<and>
   run_monte_carlo mean_sampler 0 missing_prices [''AAPL'', ''MSFT''] 250000 10 1000
     \<noteq> Inl (MissingTickerDataError ''MSFT'')"
proof -
  have "mean_sampler 0 (fst (return_model missing_prices)) (snd (return_model missing_prices))
          (10 * 252) = Inl LinAlgError"
    by (simp add: return_model_missing mean_sampler_def)
  then have "run_monte_carlo mean_sampler 0 missing_prices [''AAPL'', ''MSFT''] 250000 10 1000
               = Inl (NumpyError LinAlgError)"
    by (intro run_first_draw_fails) simp_all
  then show ?thesis by simp
qed


section \<open>Properties of the float64 model of lines 44 to 50\<close>





































section \<open>Properties of the cleaning of stock data\<close>

lemma char_upper_idem: "char_upper (char_upper c) = char_upper c"
  by (auto simp: char_upper_def Let_def)

lemma str_upper_idem: "str_upper (str_upper s) = str_upper s"
  by (simp add: str_upper_def char_upper_idem)

lemma dt_date_idem: "dt_date (dt_date t) = dt_date t"
  by (simp add: dt_date_def)

lemma astype_fillna_idem:
  "astype_int (fillna0 (astype_int (fillna0 v))) = astype_int (fillna0 v)"
  by (cases v) (auto simp: astype_int_def fillna0_def)

lemma fgt0_not_None: "fgt0 a \<Longrightarrow> a \<noteq> None"
  by (cases a) (simp_all add: fgt0_def)

lemma positive_prices_filter:
  "positive_prices cols df = filter (\<lambda>r. list_all (\<lambda>col. fgt0 (col r)) cols) df"
  by (induction cols arbitrary: df) (simp_all add: conj_commute)

lemma drop_duplicates_seen_subset:
  "set (drop_duplicates_seen seen rs) \<subseteq> set rs"
  by (induction rs arbitrary: seen) auto

lemma drop_duplicates_seen_keys:
  "r \<in> set (drop_duplicates_seen seen rs) \<Longrightarrow> row_key r \<notin> set seen"
proof (induction rs arbitrary: seen)
  case Nil
  then show ?case by simp
next
  case (Cons x rs)
  show ?case
  proof (cases "row_key x \<in> set seen")
    case True
    with Cons show ?thesis by simp
  next
    case False
    with Cons.prems have "r = x \<or> r \<in> set (drop_duplicates_seen (row_key x # seen) rs)"
      by simp
    then show ?thesis
    proof
      assume "r = x"
      with False show ?thesis by simp
    next
      assume "r \<in> set (drop_duplicates_seen (row_key x # seen) rs)"
      from Cons.IH[OF this] show ?thesis by simp
    qed
  qed
qed

lemma drop_duplicates_seen_distinct:
  "distinct (map row_key (drop_duplicates_seen seen rs))"
proof (induction rs arbitrary: seen)
  case Nil
  then show ?case by simp
next
  case (Cons r rs)
  have "row_key r \<notin> set (map row_key (drop_duplicates_seen (row_key r # seen) rs))"
  proof
    assume "row_key r \<in> set (map row_key (drop_duplicates_seen (row_key r # seen) rs))"
    then obtain x where
      x: "x \<in> set (drop_duplicates_seen (row_key r # seen) rs)" and "row_key x = row_key r"
      by auto
    with drop_duplicates_seen_keys[OF x] show False by simp
  qed
  with Cons show ?case by simp
qed

lemma drop_duplicates_seen_id:
  "distinct (map row_key rs) \<Longrightarrow> set (map row_key rs) \<inter> set seen = {} \<Longrightarrow>
     drop_duplicates_seen seen rs = rs"
  by (induction rs arbitrary: seen) auto


lemma drop_duplicates_id: "distinct (map row_key rs) \<Longrightarrow> drop_duplicates rs = rs"
  by (simp add: drop_duplicates_def drop_duplicates_seen_id)

text \<open>What a row that survives the pipeline looks like.\<close>

lemma clean_stock_data_member:
  assumes "r \<in> set (clean_stock_data df)" and "df \<noteq> []"
  shows "row_valid r \<and> row_normal r"
proof -
  let ?up = "\<lambda>r. r\<lparr>ticker := str_upper (ticker r)\<rparr>"
  let ?dt = "\<lambda>r. r\<lparr>date := dt_date (date r)\<rparr>"
  let ?fill = "\<lambda>r. r\<lparr>volume := fillna0 (volume r)\<rparr>"
  let ?ast = "\<lambda>r. r\<lparr>volume := astype_int (volume r)\<rparr>"
  let ?df5 = "filter valid_range
                (positive_prices price_cols (dropna_subset price_cols (map ?up (map ?dt df))))"
  let ?df8 = "filter (\<lambda>r. fge0 (volume r)) (map ?ast (map ?fill ?df5))"
  from assms have "r \<in> set (drop_duplicates ?df8)"
    by (simp add: clean_stock_data_def Let_def sort_values_def)
  then have r8: "r \<in> set ?df8"
    using drop_duplicates_seen_subset[of "[]" ?df8] by (auto simp: drop_duplicates_def)
  then obtain r5 where
    r5: "r5 \<in> set ?df5" and r: "r = ?ast (?fill r5)" and vol: "fge0 (volume r)"
    by auto
  from r5 obtain r0 where
    r0: "r5 = ?up (?dt r0)" and
    valid: "valid_range r5" and
    pos: "list_all (\<lambda>col. fgt0 (col r5)) price_cols"
    by (auto simp: positive_prices_filter dropna_subset_def)
  have "row_valid r"
    using valid pos vol r by (simp add: row_valid_def valid_range_def price_cols_def)
  moreover have "row_normal r"
    using r r0
    by (simp add: row_normal_def dt_date_idem str_upper_idem astype_fillna_idem)
  ultimately show ?thesis ..
qed

lemma clean_stock_data_keys:
  "distinct (map row_key (clean_stock_data df)) \<and> sorted (map row_key (clean_stock_data df))"
proof (cases "df = []")
  case True
  then show ?thesis by (simp add: clean_stock_data_def)
next
  case False
  then show ?thesis
    by (simp add: clean_stock_data_def Let_def sort_values_def drop_duplicates_def
        distinct_map drop_duplicates_seen_distinct[unfolded distinct_map] sorted_sort_key)
qed

text \<open>A frame of valid rows in normal form, sorted and without duplicates, is left alone.\<close>

lemma clean_stock_data_fixpoint:
  assumes "\<forall>r \<in> set df. row_valid r \<and> row_normal r"
    and "distinct (map row_key df)" and "sorted (map row_key df)"
  shows "clean_stock_data df = df"
proof (cases "df = []")
  case True
  then show ?thesis by (simp add: clean_stock_data_def)
next
  case False
  let ?up = "\<lambda>r. r\<lparr>ticker := str_upper (ticker r)\<rparr>"
  let ?dt = "\<lambda>r. r\<lparr>date := dt_date (date r)\<rparr>"
  let ?fill = "\<lambda>r. r\<lparr>volume := fillna0 (volume r)\<rparr>"
  let ?ast = "\<lambda>r. r\<lparr>volume := astype_int (volume r)\<rparr>"
  have s1: "map ?dt df = df"
    using assms(1) by (intro map_idI) (simp add: row_normal_def)
  have s2: "map ?up df = df"
    using assms(1) by (intro map_idI) (simp add: row_normal_def)
  have s3: "dropna_subset price_cols df = df"
    using assms(1)
    by (auto simp: dropna_subset_def price_cols_def row_valid_def filter_id_conv
        dest: fgt0_not_None)
  have s4: "positive_prices price_cols df = df"
    using assms(1)
    by (auto simp: positive_prices_filter price_cols_def row_valid_def filter_id_conv)
  have s5: "filter valid_range df = df"
    using assms(1) by (auto simp: valid_range_def row_valid_def filter_id_conv)
  have s67: "map (?ast \<circ> ?fill) df = df"
    using assms(1) by (intro map_idI) (simp add: row_normal_def)
  have s8: "filter (\<lambda>r. fge0 (volume r)) df = df"
    using assms(1) by (auto simp: row_valid_def filter_id_conv)
  have s9: "drop_duplicates df = df" by (rule drop_duplicates_id[OF assms(2)])
  have s10: "sort_values df = df"
    unfolding sort_values_def by (rule sort_key_id_if_sorted[OF assms(3)])
  show ?thesis
    using False by (simp add: clean_stock_data_def Let_def s1 s2 s3 s4 s5 s67 s8 s9 s10)
qed


lemma row_valid_cells:
  assumes "row_valid r"
  shows "\<exists>o_v h_v l_v c_v a_v v.
           open_price r = Some o_v \<and> high r = Some h_v \<and> low r = Some l_v \<and>
           close r = Some c_v \<and> adj_close r = Some a_v \<and> volume r = Some v \<and>
           0 < o_v \<and> 0 < h_v \<and> 0 < l_v \<and> 0 < c_v \<and> 0 < a_v \<and> 0 \<le> v \<and>
           l_v \<le> h_v \<and> o_v \<le> h_v \<and> c_v \<le> h_v \<and> l_v \<le> o_v \<and> l_v \<le> c_v"
proof -
  from assms obtain o_v h_v l_v c_v a_v v where
    "open_price r = Some o_v" "high r = Some h_v" "low r = Some l_v"
    "close r = Some c_v" "adj_close r = Some a_v" "volume r = Some v"
    by (auto simp: row_valid_def fgt0_def fge0_def split: option.splits)
  with assms show ?thesis
    by (simp add: row_valid_def fgt0_def fge0_def fge_def fle_def)
qed

lemma sample_cleaned_keys:
  "map row_key (clean_stock_data sample_stock_data)
     = [(''AAPL'', (1, 0)), (''NVDA'', (1, 0)), (''NVDA'', (2, 0))]"
  by code_simp

text \<open>
  C9. Whatever the input frame, every row of the output of \<open>clean_stock_data\<close> has
  all five prices present and strictly positive, a non-negative volume, and
  \<open>high \<ge> low\<close>, \<open>high \<ge> open\<close>, \<open>high \<ge> close\<close>, \<open>low \<le> open\<close>,
  \<open>low \<le> close\<close>; no two rows have the same (ticker, date) pair; and the rows are
  sorted by ticker, then date.
\<close>

theorem clean_stock_data_invariants:
  "(\<forall>r \<in> set (clean_stock_data df).
      \<exists>o_v h_v l_v c_v a_v v.
        open_price r = Some o_v \<and> high r = Some h_v \<and> low r = Some l_v \<and>
        close r = Some c_v \<and> adj_close r = Some a_v \<and> volume r = Some v \<and>
        0 < o_v \<and> 0 < h_v \<and> 0 < l_v \<and> 0 < c_v \<and> 0 < a_v \<and> 0 \<le> v \<and>
        l_v \<le> h_v \<and> o_v \<le> h_v \<and> c_v \<le> h_v \<and> l_v \<le> o_v \<and> l_v \<le> c_v) \<and>
   distinct (map row_key (clean_stock_data df)) \<and>
   sorted (map row_key (clean_stock_data df))"
proof (intro conjI ballI)
  fix r assume r: "r \<in> set (clean_stock_data df)"
  then have "df \<noteq> []" by (auto simp: clean_stock_data_def)
  from clean_stock_data_member[OF r this] have "row_valid r" ..
  then show "\<exists>o_v h_v l_v c_v a_v v.
        open_price r = Some o_v \<and> high r = Some h_v \<and> low r = Some l_v \<and>
        close r = Some c_v \<and> adj_close r = Some a_v \<and> volume r = Some v \<and>
        0 < o_v \<and> 0 < h_v \<and> 0 < l_v \<and> 0 < c_v \<and> 0 < a_v \<and> 0 \<le> v \<and>
        l_v \<le> h_v \<and> o_v \<le> h_v \<and> c_v \<le> h_v \<and> l_v \<le> o_v \<and> l_v \<le> c_v"
    by (rule row_valid_cells)
next
  show "distinct (map row_key (clean_stock_data df))"
    using clean_stock_data_keys[of df] ..
next
  show "sorted (map row_key (clean_stock_data df))"
    using clean_stock_data_keys[of df] ..
qed

theorem clean_stock_data_invariants_witness:
  "map row_key (clean_stock_data sample_stock_data)
     = [(''AAPL'', (1, 0)), (''NVDA'', (1, 0)), (''NVDA'', (2, 0))] \<and>
   list_all
     (\<lambda>r. \<exists>o_v h_v l_v c_v a_v v.
        open_price r = Some o_v \<and> high r = Some h_v \<and> low r = Some l_v \<and>
        close r = Some c_v \<and> adj_close r = Some a_v \<and> volume r = Some v \<and>
        0 < o_v \<and> 0 < h_v \<and> 0 < l_v \<and> 0 < c_v \<and> 0 < a_v \<and> 0 \<le> v \<and>
        l_v \<le> h_v \<and> o_v \<le> h_v \<and> c_v \<le> h_v \<and> l_v \<le> o_v \<and> l_v \<le> c_v)
     (clean_stock_data sample_stock_data) \<and>
   distinct (map row_key (clean_stock_data sample_stock_data)) \<and>
   sorted (map row_key (clean_stock_data sample_stock_data))"
  unfolding list_all_iff
  using clean_stock_data_invariants[of sample_stock_data] sample_cleaned_keys by blast

text \<open>
  C10. \<open>clean_stock_data\<close> is idempotent: cleaning a cleaned frame gives the same frame.
\<close>

theorem clean_stock_data_idempotent:
  "clean_stock_data (clean_stock_data df) = clean_stock_data df"
proof (cases "df = []")
  case True
  then show ?thesis by (simp add: clean_stock_data_def)
next
  case False
  have "\<forall>r \<in> set (clean_stock_data df). row_valid r \<and> row_normal r"
    using clean_stock_data_member[OF _ False] by blast
  moreover have "distinct (map row_key (clean_stock_data df))"
    using clean_stock_data_keys[of df] ..
  moreover have "sorted (map row_key (clean_stock_data df))"
    using clean_stock_data_keys[of df] ..
  ultimately show ?thesis by (rule clean_stock_data_fixpoint)
qed

theorem clean_stock_data_idempotent_witness:
  "length (clean_stock_data sample_stock_data) = 3 \<and>
   length sample_stock_data = 5 \<and>
   clean_stock_data (clean_stock_data sample_stock_data) = clean_stock_data sample_stock_data"
proof -
  have "length (map row_key (clean_stock_data sample_stock_data)) = 3"
    unfolding sample_cleaned_keys by simp
  moreover have "length sample_stock_data = 5" by (simp add: sample_stock_data_def)
  ultimately show ?thesis
    using clean_stock_data_idempotent[of sample_stock_data] by simp
qed

end
